theory Spec2Isabelle
  imports Main "HOL-Library.Word"
begin

section \<open>Text\<close>

text \<open>
  A Go string is read by \<^verbatim>\<open>regexp\<close> and by \<^verbatim>\<open>strings.ToLower\<close> rune by rune (a byte that
  is not well-formed UTF-8 is read as the rune U+FFFD). A text is therefore the list of its
  runes, a rune being its code point. All patterns and keywords of the program are ASCII,
  and UTF-8 encodes a non-ASCII rune with non-ASCII bytes only, so that the byte-wise
  \<^verbatim>\<open>strings.Contains\<close> of an ASCII keyword and the rune-wise one agree.
\<close>

type_synonym rune = nat

definition str :: "string \<Rightarrow> rune list" where
  "str s = map of_char s"

text \<open>
  \<^verbatim>\<open>unicode.ToLower\<close>: the ASCII capitals, and the two runes outside ASCII whose lower case
  is an ASCII letter (U+0130 to \<open>i\<close>, the Kelvin sign U+212A to \<open>k\<close>). Every other rune
  outside ASCII has a lower case outside ASCII; it is left as it is here, which no test
  against an ASCII keyword can tell apart.
\<close>

definition toLowerRune :: "rune \<Rightarrow> rune" where
  "toLowerRune r =
     (if 65 \<le> r \<and> r \<le> 90 then r + 32
      else if r = 304 then 105
      else if r = 8490 then 107
      else r)"

definition ToLower :: "rune list \<Rightarrow> rune list" where
  "ToLower s = map toLowerRune s"

fun HasPrefix :: "rune list \<Rightarrow> rune list \<Rightarrow> bool" where
  "HasPrefix s [] = True"
| "HasPrefix [] (c # cs) = False"
| "HasPrefix (r # rs) (c # cs) = (r = c \<and> HasPrefix rs cs)"

fun Contains :: "rune list \<Rightarrow> rune list \<Rightarrow> bool" where
  "Contains [] substr = HasPrefix [] substr"
| "Contains (r # rs) substr = (HasPrefix (r # rs) substr \<or> Contains rs substr)"

section \<open>Regular expressions\<close>

text \<open>
  The two patterns of the program are values of this syntax; \<open>matchR\<close> is a backtracking
  matcher for it. A position in the text is the rune before it (if any) and the runes
  after it; \<open>matchR\<close> returns every position at which a match starting at the given
  position can end. \<^verbatim>\<open>MatchString\<close> only asks whether some match exists, so that the order
  of the results does not matter.
\<close>

datatype regex =
    Eps
  | Lit rune
  | Class "(rune \<times> rune) list"
  | Cat regex regex
  | Alt regex regex
  | Quest regex
  | Star regex
  | Plus regex
  | WordBoundary

fun rsize :: "regex \<Rightarrow> nat" where
  "rsize (Cat a b) = Suc (rsize a + rsize b)"
| "rsize (Alt a b) = Suc (rsize a + rsize b)"
| "rsize (Quest a) = Suc (rsize a)"
| "rsize (Star a) = Suc (rsize a)"
| "rsize (Plus a) = Suc (Suc (rsize a))"
| "rsize _ = 0"

text \<open>
  Case folding under the flag \<^verbatim>\<open>(?i)\<close> follows \<^verbatim>\<open>unicode.SimpleFold\<close>: the orbit of an ASCII
  letter is its two cases, and for \<open>k\<close> and \<open>s\<close> also the Kelvin sign U+212A and the long s
  U+017F. No other orbit holds an ASCII rune, and the patterns are ASCII, so the other
  orbits are singletons here.
\<close>

definition simpleFoldOrbit :: "rune \<Rightarrow> rune list" where
  "simpleFoldOrbit c =
     (if 65 \<le> c \<and> c \<le> 90 then
        [c, c + 32] @ (if c = 75 then [8490] else if c = 83 then [383] else [])
      else if 97 \<le> c \<and> c \<le> 122 then
        [c, c - 32] @ (if c = 107 then [8490] else if c = 115 then [383] else [])
      else if c = 8490 then [8490, 75, 107]
      else if c = 383 then [383, 83, 115]
      else [c])"

definition runeMatches :: "bool \<Rightarrow> rune \<Rightarrow> rune \<Rightarrow> bool" where
  "runeMatches ci c r = (if ci then r \<in> set (simpleFoldOrbit c) else r = c)"

definition inRanges :: "(rune \<times> rune) list \<Rightarrow> rune \<Rightarrow> bool" where
  "inRanges cs r = list_ex (\<lambda>(lo, hi). lo \<le> r \<and> r \<le> hi) cs"

definition classMatches :: "bool \<Rightarrow> (rune \<times> rune) list \<Rightarrow> rune \<Rightarrow> bool" where
  "classMatches ci cs r =
     (if ci then list_ex (inRanges cs) (simpleFoldOrbit r) else inRanges cs r)"

text \<open>The word runes of \<^verbatim>\<open>\b\<close> are the ASCII ones: \<^verbatim>\<open>[0-9A-Za-z_]\<close>.\<close>

definition isWordRune :: "rune \<Rightarrow> bool" where
  "isWordRune r =
     ((48 \<le> r \<and> r \<le> 57) \<or> (65 \<le> r \<and> r \<le> 90) \<or> r = 95 \<or> (97 \<le> r \<and> r \<le> 122))"

type_synonym pos = "rune option \<times> rune list"

definition wordBefore :: "pos \<Rightarrow> bool" where
  "wordBefore p = (case fst p of None \<Rightarrow> False | Some r \<Rightarrow> isWordRune r)"

definition wordAfter :: "pos \<Rightarrow> bool" where
  "wordAfter p = (case snd p of [] \<Rightarrow> False | r # _ \<Rightarrow> isWordRune r)"

function matchR :: "bool \<Rightarrow> regex \<Rightarrow> pos \<Rightarrow> pos list" where
  "matchR ci Eps p = [p]"
| "matchR ci (Lit c) p =
     (case snd p of [] \<Rightarrow> [] | r # rs \<Rightarrow> if runeMatches ci c r then [(Some r, rs)] else [])"
| "matchR ci (Class cs) p =
     (case snd p of [] \<Rightarrow> [] | r # rs \<Rightarrow> if classMatches ci cs r then [(Some r, rs)] else [])"
| "matchR ci (Cat a b) p = concat (map (matchR ci b) (matchR ci a p))"
| "matchR ci (Alt a b) p = matchR ci a p @ matchR ci b p"
| "matchR ci (Quest a) p = matchR ci a p @ [p]"
| "matchR ci (Star a) p =
     concat (map (\<lambda>q. if length (snd q) < length (snd p) then matchR ci (Star a) q else [])
                 (matchR ci a p)) @ [p]"
| "matchR ci (Plus a) p = concat (map (matchR ci (Star a)) (matchR ci a p))"
| "matchR ci WordBoundary p = (if wordBefore p \<noteq> wordAfter p then [p] else [])"
  by pat_completeness auto
termination
  by (relation "measures [\<lambda>(ci, re, p). rsize re, \<lambda>(ci, re, p). length (snd p)]") auto

text \<open>The search for a match tries every start position, from the left.\<close>

fun searchFrom :: "bool \<Rightarrow> regex \<Rightarrow> rune option \<Rightarrow> rune list \<Rightarrow> bool" where
  "searchFrom ci re prev [] = (matchR ci re (prev, []) \<noteq> [])"
| "searchFrom ci re prev (r # rs) =
     (matchR ci re (prev, r # rs) \<noteq> [] \<or> searchFrom ci re (Some r) rs)"

record Regexp =
  foldCase :: bool
  expr :: regex

definition MatchString :: "Regexp \<Rightarrow> rune list \<Rightarrow> bool" where
  "MatchString re s = searchFrom (foldCase re) (expr re) None s"

fun lit :: "rune list \<Rightarrow> regex" where
  "lit [] = Eps"
| "lit [c] = Lit c"
| "lit (c # cs) = Cat (Lit c) (lit cs)"

fun alts :: "regex list \<Rightarrow> regex" where
  "alts [] = Eps"
| "alts [a] = a"
| "alts (a # as) = Alt a (alts as)"

section \<open>The detector\<close>

type_synonym key = "64 word \<times> 64 word"

text \<open>
  The table \<^verbatim>\<open>spam_records\<close>: its primary key is the pair of the chat and the user, so it is
  a map from keys to counts. A count is an \<open>int\<close>: SQLite's counts are 64-bit, and a count
  of \<open>2^63\<close> needs as many recorded offences.
\<close>

type_synonym store = "key \<Rightarrow> int option"

text \<open>
  The two patterns are pointers in the struct (\<^verbatim>\<open>*regexp.Regexp\<close>), so a field is either a
  compiled pattern or nil, which is \<open>None\<close>.
\<close>

record SpamDetector =
  linkPattern :: "Regexp option"
  mentionPattern :: "Regexp option"
  spamKeywords :: "rune list list"
  db :: store
  banThreshold :: int

definition tlds :: "rune list list" where
  "tlds = map str [''com'', ''net'', ''org'', ''io'', ''me'', ''co'', ''xyz'', ''info'',
                   ''biz'', ''tv'', ''cc'', ''ru'', ''kr'', ''cn'']"

definition labelStart :: "(rune \<times> rune) list" where
  "labelStart = [(97, 122), (48, 57)]"

definition labelRest :: "(rune \<times> rune) list" where
  "labelRest = [(45, 45), (97, 122), (48, 57)]"

definition fixedLinks :: "rune list list" where
  "fixedLinks = map str [''t.me/'', ''bit.ly'', ''tinyurl'', ''telegram.me'', ''www.'']"

text \<open>The first alternative of the link pattern, \<^verbatim>\<open>https?://\<close>.\<close>

definition schemeLink :: regex where
  "schemeLink = Cat (lit (str ''http'')) (Cat (Quest (Lit 115)) (lit (str ''://'')))"

text \<open>The last one, \<^verbatim>\<open>[a-z0-9][-a-z0-9]*\.(com|net|...|cn)\b\<close>.\<close>

definition domainLink :: regex where
  "domainLink =
     Cat (Class labelStart)
       (Cat (Star (Class labelRest))
         (Cat (Lit 46) (Cat (alts (map lit tlds)) WordBoundary)))"

definition defaultLinkPattern :: Regexp where
  "defaultLinkPattern =
     \<lparr> foldCase = True,
       expr = alts (schemeLink # map lit fixedLinks @ [domainLink]) \<rparr>"

definition mentionRunes :: "(rune \<times> rune) list" where
  "mentionRunes = [(97, 122), (65, 90), (48, 57), (95, 95)]"

definition defaultMentionPattern :: Regexp where
  "defaultMentionPattern =
     \<lparr> foldCase = False, expr = Cat (Lit 64) (Plus (Class mentionRunes)) \<rparr>"

definition defaultKeywords :: "rune list list" where
  "defaultKeywords = map str
     [''earn money'', ''make money fast'', ''investment opportunity'',
      ''double your'', ''guaranteed profit'', ''free money'',
      ''click here'', ''join now'', ''limited time offer'',
      ''act now'', ''don't miss'', ''exclusive deal'',
      ''work from home'', ''be your own boss'', ''financial freedom'',
      ''forex signal'', ''trading signal'', ''casino'', ''betting'']"

text \<open>The struct that \<^verbatim>\<open>NewSpamDetector\<close> returns, on the table it has opened.\<close>

definition detector :: "store \<Rightarrow> SpamDetector" where
  "detector tbl =
     \<lparr> linkPattern = Some defaultLinkPattern,
       mentionPattern = Some defaultMentionPattern,
       spamKeywords = defaultKeywords,
       db = tbl,
       banThreshold = 3 \<rparr>"

text \<open>
  \<^verbatim>\<open>NewSpamDetector\<close>: opening the database and creating the table can each fail (the
  environment decides, with the error's text); \<^verbatim>\<open>CREATE TABLE IF NOT EXISTS\<close> keeps the
  records of an earlier run.
\<close>

definition NewSpamDetector :: "string option \<Rightarrow> string option \<Rightarrow> store \<Rightarrow> string + SpamDetector" where
  "NewSpamDetector openErr createErr tbl =
     (case openErr of
        Some e \<Rightarrow> Inl (''failed to open database: '' @ e)
      | None \<Rightarrow>
          (case createErr of
             Some e \<Rightarrow> Inl (''failed to create table: '' @ e)
           | None \<Rightarrow> Inr (detector tbl)))"

definition noRecords :: store where
  "noRecords = (\<lambda>k. None)"

section \<open>The classifier\<close>

type_synonym verdict = "bool \<times> rune list \<times> rune list"

definition urlVerdict :: verdict where
  "urlVerdict = (True, str ''URL detected'', str ''URL '' @ [44048, 51648])"

definition keywordVerdict :: "rune list \<Rightarrow> verdict" where
  "keywordVerdict keyword =
     (True, str ''spam keyword with mention: '' @ keyword,
      [47704, 49496, 43, 49828, 54072, 32, 53412, 50892, 46300])"

definition notSpam :: verdict where
  "notSpam = (False, [], [])"

text \<open>The loop over the keywords: the first keyword that the lowered text contains wins.\<close>

fun keywordLoop :: "rune list list \<Rightarrow> rune list \<Rightarrow> verdict" where
  "keywordLoop [] lowerText = notSpam"
| "keywordLoop (keyword # rest) lowerText =
     (if Contains lowerText keyword then keywordVerdict keyword
      else keywordLoop rest lowerText)"

text \<open>
  \<^verbatim>\<open>IsSpam\<close> has no error among its results; what can go wrong in it is a method call on a
  nil pattern, which panics. The two calls come in the order of the source, before the
  verdict is chosen.
\<close>

datatype panic = NilPointerDereference

definition IsSpam :: "SpamDetector \<Rightarrow> rune list \<Rightarrow> panic + verdict" where
  "IsSpam sd text =
     (let lowerText = ToLower text in
      case linkPattern sd of
        None \<Rightarrow> Inl NilPointerDereference
      | Some lp \<Rightarrow>
          (let hasLink = MatchString lp text in
           case mentionPattern sd of
             None \<Rightarrow> Inl NilPointerDereference
           | Some mp \<Rightarrow>
               (let hasMention = MatchString mp text in
                if hasLink then Inr urlVerdict
                else if hasMention then Inr (keywordLoop (spamKeywords sd) lowerText)
                else Inr notSpam)))"

section \<open>The ledger\<close>

text \<open>
  Each of the two statements of \<^verbatim>\<open>RecordSpam\<close> can fail; the environment decides, giving
  the error's text. A statement that fails changes nothing in the table.
\<close>

record faults =
  execErr :: "string option"
  queryErr :: "string option"

definition noFaults :: faults where
  "noFaults = \<lparr> execErr = None, queryErr = None \<rparr>"

definition execUpsert :: "string option \<Rightarrow> store \<Rightarrow> key \<Rightarrow> string + store" where
  "execUpsert fault tbl k =
     (case fault of
        Some e \<Rightarrow> Inl e
      | None \<Rightarrow> Inr (tbl(k \<mapsto> (case tbl k of None \<Rightarrow> 1 | Some n \<Rightarrow> n + 1))))"

definition queryCount :: "string option \<Rightarrow> store \<Rightarrow> key \<Rightarrow> string + int" where
  "queryCount fault tbl k =
     (case fault of
        Some e \<Rightarrow> Inl e
      | None \<Rightarrow> (case tbl k of None \<Rightarrow> Inl ''sql: no rows in result set'' | Some n \<Rightarrow> Inr n))"

text \<open>
  \<^verbatim>\<open>RecordSpam\<close> returns the count and the ban decision; the model returns with them the
  detector after the call and the lines the call has written to the log.
\<close>

definition RecordSpam ::
  "SpamDetector \<Rightarrow> faults \<Rightarrow> 64 word \<Rightarrow> 64 word \<Rightarrow> (int \<times> bool) \<times> SpamDetector \<times> string list" where
  "RecordSpam sd f chatID userID =
     (case execUpsert (execErr f) (db sd) (chatID, userID) of
        Inl e \<Rightarrow> ((0, False), sd, [''Failed to record spam: '' @ e])
      | Inr tbl \<Rightarrow>
          (case queryCount (queryErr f) tbl (chatID, userID) of
             Inl e \<Rightarrow> ((0, False), sd\<lparr>db := tbl\<rparr>, [''Failed to get spam count: '' @ e])
           | Inr count \<Rightarrow> ((count, banThreshold sd \<le> count), sd\<lparr>db := tbl\<rparr>, [])))"

text \<open>A run of calls, each with its faults and its key, from the left.\<close>

type_synonym call = "faults \<times> 64 word \<times> 64 word"

fun run :: "SpamDetector \<Rightarrow> call list \<Rightarrow> (int \<times> bool) list \<times> SpamDetector" where
  "run sd [] = ([], sd)"
| "run sd ((f, chatID, userID) # calls) =
     (case RecordSpam sd f chatID userID of
        (r, sd', _) \<Rightarrow> (case run sd' calls of (rs, sd'') \<Rightarrow> (r # rs, sd'')))"

definition storedCount :: "store \<Rightarrow> key \<Rightarrow> int" where
  "storedCount tbl k = (case tbl k of None \<Rightarrow> 0 | Some n \<Rightarrow> n)"

section \<open>The words of the specification\<close>

text \<open>
  The properties speak of texts that contain a link token, a mention token or a keyword.
  These predicates say so with the text cut in three; they are compared below with what
  the matcher computes.
\<close>

text \<open>The rune before the position reached after reading \<open>xs\<close>.\<close>

definition after :: "rune option \<Rightarrow> rune list \<Rightarrow> rune option" where
  "after prev xs = (if xs = [] then prev else Some (last xs))"







section \<open>What the matcher returns\<close>

declare matchR.simps(7) [simp del]

lemma after_Nil [simp]: "after prev [] = prev"
  by (simp add: after_def)

lemma after_Cons [simp]: "after prev (x # xs) = after (Some x) xs"
  by (simp add: after_def)

lemma after_append [simp]: "after prev (xs @ ys) = after (after prev xs) ys"
  by (simp add: after_def)












section \<open>The offense ledger: the calls one by one\<close>

lemma RecordSpam_db:
  "db (fst (snd (RecordSpam sd f chatID userID))) =
     (if execErr f = None
      then (db sd)((chatID, userID) \<mapsto> storedCount (db sd) (chatID, userID) + 1)
      else db sd)"
  by (auto simp: RecordSpam_def execUpsert_def queryCount_def storedCount_def
           split: option.splits)

lemma RecordSpam_tables:
  "linkPattern (fst (snd (RecordSpam sd f chatID userID))) = linkPattern sd"
  "mentionPattern (fst (snd (RecordSpam sd f chatID userID))) = mentionPattern sd"
  "spamKeywords (fst (snd (RecordSpam sd f chatID userID))) = spamKeywords sd"
  "banThreshold (fst (snd (RecordSpam sd f chatID userID))) = banThreshold sd"
  by (auto simp: RecordSpam_def execUpsert_def queryCount_def split: option.splits)

lemma RecordSpam_ok:
  "fst (RecordSpam sd noFaults chatID userID) =
     (storedCount (db sd) (chatID, userID) + 1,
      banThreshold sd \<le> storedCount (db sd) (chatID, userID) + 1)"
  by (auto simp: RecordSpam_def execUpsert_def queryCount_def storedCount_def noFaults_def
           split: option.splits)

lemma run_Cons:
  "run sd ((f, chatID, userID) # calls) =
     (fst (RecordSpam sd f chatID userID) # fst (run (fst (snd (RecordSpam sd f chatID userID))) calls),
      snd (run (fst (snd (RecordSpam sd f chatID userID))) calls))"
  by (simp split: prod.splits)

lemma run_replicate:
  "fst (run sd (replicate N (noFaults, chatID, userID))) =
     map (\<lambda>k. (storedCount (db sd) (chatID, userID) + int k,
               banThreshold sd \<le> storedCount (db sd) (chatID, userID) + int k)) [1..<Suc N]"
proof (induction N arbitrary: sd)
  case 0
  show ?case by simp
next
  case (Suc N)
  let ?sd = "fst (snd (RecordSpam sd noFaults chatID userID))"
  have c: "storedCount (db ?sd) (chatID, userID) = storedCount (db sd) (chatID, userID) + 1"
    by (simp add: RecordSpam_db noFaults_def storedCount_def)
  have "[1..<Suc (Suc N)] = 1 # map Suc [1..<Suc N]"
    by (simp add: map_Suc_upt upt_conv_Cons del: upt_Suc)
  then show ?case
    unfolding replicate_Suc run_Cons fst_conv Suc.IH RecordSpam_ok c RecordSpam_tables
    by (simp add: o_def add.assoc del: upt_Suc)
qed

lemma run_db_other:
  "list_all (\<lambda>call. snd call \<noteq> k) calls \<Longrightarrow> db (snd (run sd calls)) k = db sd k"
proof (induction calls arbitrary: sd)
  case Nil
  show ?case by simp
next
  case (Cons call calls)
  obtain f c u where call: "call = (f, c, u)" by (cases call) auto
  with Cons.prems have "(c, u) \<noteq> k" "list_all (\<lambda>call. snd call \<noteq> k) calls" by auto
  then show ?case
    unfolding call run_Cons snd_conv by (simp add: Cons.IH RecordSpam_db)
qed

lemma RecordSpam_mono:
  "storedCount (db sd) k \<le> storedCount (db (fst (snd (RecordSpam sd f chatID userID)))) k"
  by (simp add: RecordSpam_db storedCount_def)

lemma RecordSpam_keeps:
  "db sd k \<noteq> None \<Longrightarrow> db (fst (snd (RecordSpam sd f chatID userID))) k \<noteq> None"
  by (simp add: RecordSpam_db)

lemma run_mono:
  "storedCount (db sd) k \<le> storedCount (db (snd (run sd calls))) k"
proof (induction calls arbitrary: sd)
  case Nil
  show ?case by simp
next
  case (Cons call calls)
  obtain f c u where call: "call = (f, c, u)" by (cases call) auto
  show ?case
    unfolding call run_Cons snd_conv
    using RecordSpam_mono [of sd k f c u] Cons.IH [of "fst (snd (RecordSpam sd f c u))"]
    by linarith
qed

lemma run_keeps:
  "db sd k \<noteq> None \<Longrightarrow> db (snd (run sd calls)) k \<noteq> None"
proof (induction calls arbitrary: sd)
  case Nil
  then show ?case by simp
next
  case (Cons call calls)
  obtain f c u where call: "call = (f, c, u)" by (cases call) auto
  show ?case
    unfolding call run_Cons snd_conv
    using Cons.prems by (intro Cons.IH RecordSpam_keeps)
qed

section \<open>The offense ledger: the properties\<close>

text \<open>
  C2. Starting from a table with no record for the pair, \<open>N\<close> calls in a row for that pair
  that all succeed return the counts \<open>1, 2, ..., N\<close>, the \<open>k\<close>-th call returning \<open>k\<close>; with
  the threshold 3 of \<^verbatim>\<open>NewSpamDetector\<close> the ban decision of the \<open>k\<close>-th call is \<open>3 \<le> k\<close>:
  false for the calls 1 and 2, true for the call 3.
\<close>

theorem RecordSpam_counts:
  assumes "tbl (chatID, userID) = None"
  shows "fst (run (detector tbl) (replicate N (noFaults, chatID, userID))) =
           map (\<lambda>k. (int k, 3 \<le> k)) [1..<Suc N]"
  using assms by (simp add: run_replicate storedCount_def detector_def del: upt_Suc)

theorem RecordSpam_counts_witness:
  "noRecords (7, 9) = None \<and>
   fst (run (detector noRecords) (replicate 3 (noFaults, 7, 9))) =
     [(1, False), (2, False), (3, True)]"
proof -
  have h: "noRecords (7, 9) = None" by (simp add: noRecords_def)
  have "[1..<Suc 3] = [1, 2, 3]" by (simp add: upt_rec)
  with RecordSpam_counts [of noRecords 7 9 3] h show ?thesis by simp
qed

text \<open>
  C3. Whatever the table holds and whether or not the statements fail, the ban decision
  that \<^verbatim>\<open>RecordSpam\<close> returns is true exactly when the count it returns has reached the
  threshold. The threshold has to be positive, as the 3 of \<^verbatim>\<open>NewSpamDetector\<close> is: the
  result \<open>(0, False)\<close> of a failed call is then below it.
\<close>

theorem RecordSpam_shouldBan_iff:
  assumes "0 < banThreshold sd"
  shows "snd (fst (RecordSpam sd f chatID userID)) \<longleftrightarrow>
           banThreshold sd \<le> fst (fst (RecordSpam sd f chatID userID))"
  using assms
  by (auto simp: RecordSpam_def execUpsert_def queryCount_def split: option.splits)

theorem RecordSpam_shouldBan_iff_witness:
  "0 < banThreshold (detector (noRecords((7, 9) \<mapsto> 2)))
   \<and> fst (RecordSpam (detector (noRecords((7, 9) \<mapsto> 2))) noFaults 7 9) = (3, True)
   \<and> (True \<longleftrightarrow> banThreshold (detector (noRecords((7, 9) \<mapsto> 2))) \<le> 3)"
proof -
  have h: "0 < banThreshold (detector (noRecords((7, 9) \<mapsto> 2)))"
    by (simp add: detector_def)
  have r: "fst (RecordSpam (detector (noRecords((7, 9) \<mapsto> 2))) noFaults 7 9) = (3, True)"
    by (simp add: RecordSpam_ok storedCount_def detector_def)
  from RecordSpam_shouldBan_iff [OF h, of noFaults 7 9] h r show ?thesis by simp
qed

text \<open>
  C6. When the upsert or the read of the count fails, \<^verbatim>\<open>RecordSpam\<close> returns \<open>(0, False)\<close>
  and writes one line to the log; the result has no error in it.
\<close>

theorem RecordSpam_degraded:
  assumes "execErr f \<noteq> None \<or> queryErr f \<noteq> None"
  shows "fst (RecordSpam sd f chatID userID) = (0, False) \<and>
         length (snd (snd (RecordSpam sd f chatID userID))) = 1"
  using assms
  by (auto simp: RecordSpam_def execUpsert_def queryCount_def split: option.splits)

theorem RecordSpam_degraded_witness:
  "execErr \<lparr>execErr = Some ''disk I/O error'', queryErr = None\<rparr> \<noteq> None
   \<and> fst (RecordSpam (detector noRecords) \<lparr>execErr = Some ''disk I/O error'', queryErr = None\<rparr> 7 9)
       = (0, False)
   \<and> snd (snd (RecordSpam (detector noRecords) \<lparr>execErr = Some ''disk I/O error'', queryErr = None\<rparr> 7 9))
       = [''Failed to record spam: disk I/O error'']"
proof -
  have h: "execErr \<lparr>execErr = Some ''disk I/O error'', queryErr = None\<rparr> \<noteq> None
           \<or> queryErr \<lparr>execErr = Some ''disk I/O error'', queryErr = None\<rparr> \<noteq> None"
    by simp
  from RecordSpam_degraded [OF h, of "detector noRecords" 7 9] show ?thesis
    by (simp add: RecordSpam_def execUpsert_def)
qed

text \<open>
  C7. A call for one pair leaves the record of every other pair as it was, and so does a
  run of calls none of which is for that pair. Through any run of calls, failed ones
  among them, the stored count of a pair never goes down, and a record that exists
  stays.
\<close>

theorem RecordSpam_independent_monotone:
  "((chatID, userID) \<noteq> k \<longrightarrow> db (fst (snd (RecordSpam sd f chatID userID))) k = db sd k)
   \<and> (list_all (\<lambda>call. snd call \<noteq> k) calls \<longrightarrow> db (snd (run sd calls)) k = db sd k)
   \<and> storedCount (db sd) k \<le> storedCount (db (snd (run sd calls))) k
   \<and> (db sd k \<noteq> None \<longrightarrow> db (snd (run sd calls)) k \<noteq> None)"
  using run_db_other [of k calls sd] run_mono [of sd k calls] run_keeps [of sd k calls]
  by (simp add: RecordSpam_db)

theorem RecordSpam_independent_monotone_witness:
  "(7, 9) \<noteq> ((1, 2) :: key)
   \<and> list_all (\<lambda>call. snd call \<noteq> ((1, 2) :: key)) [(noFaults, 7, 9), (noFaults, 7, 9)]
   \<and> db (detector (noRecords((1, 2) \<mapsto> 5))) (1, 2) \<noteq> None
   \<and> db (fst (snd (RecordSpam (detector (noRecords((1, 2) \<mapsto> 5))) noFaults 7 9))) (1, 2) = Some 5
   \<and> db (snd (run (detector (noRecords((1, 2) \<mapsto> 5))) [(noFaults, 7, 9), (noFaults, 7, 9)])) (1, 2)
       = Some 5"
proof -
  have a: "(7, 9) \<noteq> ((1, 2) :: key)" by simp
  have b: "list_all (\<lambda>call. snd call \<noteq> ((1, 2) :: key)) [(noFaults, 7, 9), (noFaults, 7, 9)]"
    by simp
  have c: "db (detector (noRecords((1, 2) \<mapsto> 5))) (1, 2) = Some 5"
    by (simp add: detector_def)
  from RecordSpam_independent_monotone
         [of 7 9 "(1, 2)" "detector (noRecords((1, 2) \<mapsto> 5))" noFaults
             "[(noFaults, 7, 9), (noFaults, 7, 9)]"] a b c
  show ?thesis by simp
qed

text \<open>
  C10. When the upsert succeeds and only the read of the count fails, the call returns
  \<open>(0, False)\<close> and the stored count of the pair has gone up by one all the same.
\<close>

theorem RecordSpam_read_failure_keeps_increment:
  "fst (RecordSpam sd \<lparr>execErr = None, queryErr = Some e\<rparr> chatID userID) = (0, False)
   \<and> storedCount (db (fst (snd (RecordSpam sd \<lparr>execErr = None, queryErr = Some e\<rparr> chatID userID)))) (chatID, userID)
       = storedCount (db sd) (chatID, userID) + 1"
  by (simp add: RecordSpam_db storedCount_def RecordSpam_def execUpsert_def queryCount_def
           split: option.splits)

section \<open>The classifier: what the two patterns accept\<close>































lemma find_range: "find P xs = Some x \<Longrightarrow> x \<in> set xs"
  by (induction xs) (auto split: if_splits)



lemma IsSpam_fields:
  "linkPattern sd' = linkPattern sd \<Longrightarrow> mentionPattern sd' = mentionPattern sd
     \<Longrightarrow> spamKeywords sd' = spamKeywords sd \<Longrightarrow> IsSpam sd' text = IsSpam sd text"
  by (simp add: IsSpam_def Let_def split: option.splits)

lemma run_tables:
  "linkPattern (snd (run sd calls)) = linkPattern sd
   \<and> mentionPattern (snd (run sd calls)) = mentionPattern sd
   \<and> spamKeywords (snd (run sd calls)) = spamKeywords sd"
proof (induction calls arbitrary: sd)
  case Nil
  show ?case by simp
next
  case (Cons call calls)
  obtain f c u where call: "call = (f, c, u)" by (cases call) auto
  show ?case
    unfolding call run_Cons snd_conv by (simp add: Cons.IH RecordSpam_tables)
qed



















section \<open>The classifier: the properties\<close>










text \<open>
  The verdict is a function of the two patterns, the keywords and the text: the table
  and the threshold play no part in it, and \<^verbatim>\<open>RecordSpam\<close> leaves the patterns and the
  keywords as they are.
\<close>

lemma IsSpam_frame:
  "IsSpam (sd\<lparr>db := tbl, banThreshold := n\<rparr>) text = IsSpam sd text
   \<and> IsSpam (fst (snd (RecordSpam sd f chatID userID))) text = IsSpam sd text
   \<and> IsSpam (snd (run sd calls)) text = IsSpam sd text"
  by (intro conjI IsSpam_fields) (simp_all add: RecordSpam_tables run_tables)

end
